theory Spec2Isabelle
  imports Main
begin

section \<open>JavaScript strings\<close>

text \<open>
  Strings are lists of characters; a character is a code unit from \<open>U+0000\<close> to \<open>U+00FF\<close>
  (Latin-1), and strings with code units beyond that range are outside the model. On this
  range \<open>toLowerCase\<close> works character by character: it maps the letters \<open>A\<close>--\<open>Z\<close> and the
  Latin-1 capitals \<open>U+00C0\<close>--\<open>U+00D6\<close> and \<open>U+00D8\<close>--\<open>U+00DE\<close> to the character 32 places
  further, and leaves every other character alone (\<open>U+00D7\<close> is the multiplication sign,
  \<open>U+00DF\<close> and \<open>U+00FF\<close> are lower-case letters). The character class \<open>[A-Z_ ]\<close> of the
  regular expression in \<open>jsNameToCssName\<close> has the letters \<open>A\<close>--\<open>Z\<close> only, the underscore
  and the space.
\<close>

definition upperChars :: string where
  "upperChars = ''ABCDEFGHIJKLMNOPQRSTUVWXYZ''"

definition lowerChars :: string where
  "lowerChars = ''abcdefghijklmnopqrstuvwxyz''"

definition latin1Upper :: string where
  "latin1Upper = [
      CHR 0xC0, CHR 0xC1, CHR 0xC2, CHR 0xC3, CHR 0xC4, CHR 0xC5, CHR 0xC6, CHR 0xC7,
      CHR 0xC8, CHR 0xC9, CHR 0xCA, CHR 0xCB, CHR 0xCC, CHR 0xCD, CHR 0xCE, CHR 0xCF,
      CHR 0xD0, CHR 0xD1, CHR 0xD2, CHR 0xD3, CHR 0xD4, CHR 0xD5, CHR 0xD6, CHR 0xD8,
      CHR 0xD9, CHR 0xDA, CHR 0xDB, CHR 0xDC, CHR 0xDD, CHR 0xDE]"

definition latin1Lower :: string where
  "latin1Lower = [
      CHR 0xE0, CHR 0xE1, CHR 0xE2, CHR 0xE3, CHR 0xE4, CHR 0xE5, CHR 0xE6, CHR 0xE7,
      CHR 0xE8, CHR 0xE9, CHR 0xEA, CHR 0xEB, CHR 0xEC, CHR 0xED, CHR 0xEE, CHR 0xEF,
      CHR 0xF0, CHR 0xF1, CHR 0xF2, CHR 0xF3, CHR 0xF4, CHR 0xF5, CHR 0xF6, CHR 0xF8,
      CHR 0xF9, CHR 0xFA, CHR 0xFB, CHR 0xFC, CHR 0xFD, CHR 0xFE]"

definition lowerChar :: "char \<Rightarrow> char" where
  "lowerChar c =
     (case map_of (zip (upperChars @ latin1Upper) (lowerChars @ latin1Lower)) c of
        Some l \<Rightarrow> l | None \<Rightarrow> c)"

definition toLowerCase :: "string \<Rightarrow> string" where
  "toLowerCase s = map lowerChar s"

text \<open>\<open>s.substring(start, end)\<close>: both indices are clamped to \<open>0 .. s.length\<close> and swapped
  when \<open>start > end\<close>.\<close>

definition substring :: "string \<Rightarrow> int \<Rightarrow> int \<Rightarrow> string" where
  "substring s start end =
     (let len = int (length s);
          intStart = min (max start 0) len;
          intEnd = min (max end 0) len;
          from = min intStart intEnd;
          to = max intStart intEnd
      in take (nat (to - from)) (drop (nat from) s))"

text \<open>\<open>xs.join(sep)\<close> on an array of strings.\<close>

fun join :: "string \<Rightarrow> string list \<Rightarrow> string" where
  "join sep [] = []"
| "join sep [x] = x"
| "join sep (x # y # ys) = x @ sep @ join sep (y # ys)"

text \<open>
  \<open>name.split(/(?=[A-Z_ ])/g)\<close>: the pattern is a lookahead, so every match is empty and
  the matched character stays with the segment that follows. \<open>String.prototype.split\<close>
  ignores an empty match at the start of the current segment, hence there is no split at
  position 0 and no empty segment; the empty string splits into one empty segment.
  \<open>splitBefore cur cs\<close> carries the segment read so far in \<open>cur\<close>.
\<close>

definition isBoundary :: "char \<Rightarrow> bool" where
  "isBoundary c = (c \<in> set upperChars \<or> c = CHR ''_'' \<or> c = CHR '' '')"

fun splitBefore :: "string \<Rightarrow> string \<Rightarrow> string list" where
  "splitBefore cur [] = [cur]"
| "splitBefore cur (c # cs) =
     (if isBoundary c \<and> cur \<noteq> [] then cur # splitBefore [c] cs
      else splitBefore (cur @ [c]) cs)"

section \<open>utils.js\<close>

definition jsNameToCssName :: "string \<Rightarrow> string" where
  "jsNameToCssName name = toLowerCase (join ''-'' (splitBefore [] name))"

subsection \<open>Objects\<close>

text \<open>
  An object is the list of its own enumerable properties, in the order in which
  \<open>Object.keys\<close> lists them: array-index keys first, in ascending numeric order, then the
  other string keys in the order of their creation. \<open>put k v ob\<close> is the object
  \<open>{...ob, [k]: v}\<close>: an existing key keeps its place and takes the new value, a new key
  goes to the place that order gives it. Only own properties are modelled; what a key such
  as \<open>toString\<close> would find on a prototype is outside the model.
\<close>

definition digitChars :: string where
  "digitChars = ''0123456789''"

definition digitVal :: "char \<Rightarrow> int" where
  "digitVal c =
     (case map_of (zip digitChars [0, 1, 2, 3, 4, 5, 6, 7, 8, 9]) c of
        Some d \<Rightarrow> d | None \<Rightarrow> 0)"

definition decimalVal :: "string \<Rightarrow> int" where
  "decimalVal s = foldl (\<lambda>n c. 10 * n + digitVal c) 0 s"

text \<open>An array index is the canonical decimal numeral of an integer below \<open>2^32 - 1\<close>.\<close>

definition isArrayIndex :: "string \<Rightarrow> bool" where
  "isArrayIndex k =
     (list_all (\<lambda>c. c \<in> set digitChars) k
      \<and> (case k of [] \<Rightarrow> False | c # cs \<Rightarrow> (c = CHR ''0'' \<and> cs = []) \<or> c \<in> set ''123456789'')
      \<and> decimalVal k < 2 ^ 32 - 1)"

text \<open>\<open>keyBefore k k'\<close>: a new key \<open>k\<close> is listed before the existing key \<open>k'\<close>.\<close>

definition keyBefore :: "string \<Rightarrow> string \<Rightarrow> bool" where
  "keyBefore k k' =
     (isArrayIndex k \<and> (if isArrayIndex k' then decimalVal k < decimalVal k' else True))"

fun replaceValue :: "string \<Rightarrow> 'a \<Rightarrow> (string \<times> 'a) list \<Rightarrow> (string \<times> 'a) list" where
  "replaceValue k v [] = []"
| "replaceValue k v (p # ps) = (if fst p = k then (k, v) # ps else p # replaceValue k v ps)"

fun insertKey :: "string \<Rightarrow> 'a \<Rightarrow> (string \<times> 'a) list \<Rightarrow> (string \<times> 'a) list" where
  "insertKey k v [] = [(k, v)]"
| "insertKey k v (p # ps) =
     (if keyBefore k (fst p) then (k, v) # p # ps else p # insertKey k v ps)"

definition put :: "string \<Rightarrow> 'a \<Rightarrow> (string \<times> 'a) list \<Rightarrow> (string \<times> 'a) list" where
  "put k v ob = (if k \<in> set (map fst ob) then replaceValue k v ob else insertKey k v ob)"

text \<open>\<open>spread accum ob\<close> is \<open>{...accum, ...ob}\<close>: the properties of \<open>ob\<close> are put one by one.\<close>

definition spread :: "(string \<times> 'a) list \<Rightarrow> (string \<times> 'a) list \<Rightarrow> (string \<times> 'a) list" where
  "spread accum ob = foldl (\<lambda>acc (k, v). put k v acc) accum ob"

subsection \<open>Theme trees and variable trees\<close>

text \<open>
  A theme tree maps keys to strings or to theme trees. \<open>makeObjectVariables\<close> turns every
  entry into a node with the fields \<open>value\<close>, \<open>var\<close> and \<open>refVar\<close> (\<open>val\<close> here); the value
  of a node is the original string or the converted subtree.
\<close>

datatype tree = Leaf string | Branch "(string \<times> tree) list"

datatype vnode = VNode (val: vval) (var: string) (refVar: string)
  and vval = VStr string | VObj "(string \<times> vnode) list"

type_synonym obj = "(string \<times> tree) list"
type_synonym vobj = "(string \<times> vnode) list"

text \<open>
  \<open>Object.keys(obj).reduce((accum, key) => ... obj[key] ..., {})\<close> visits the properties of
  \<open>obj\<close> in order: a fold from the left over the pairs of key and \<open>obj[key]\<close>. An absent
  or empty \<open>prefix\<close> or \<open>suffix\<close> is falsy, and is the empty string here.
\<close>

fun makeObjectVariables :: "obj \<Rightarrow> string \<Rightarrow> string \<Rightarrow> vobj" where
  "makeObjectVariables ob prefix suffix = foldl (\<lambda>accum (key, v).
     let prefixStr = (if prefix \<noteq> [] then prefix @ ''-'' else []);
         suffixStr = (if suffix \<noteq> [] then ''-'' @ suffix else []);
         name = prefixStr @ jsNameToCssName key @ suffixStr
     in put key (VNode
          (case v of Leaf s \<Rightarrow> VStr s
           | Branch sub \<Rightarrow> VObj (makeObjectVariables sub (prefixStr @ key) suffix))
          (''--'' @ name)
          (''var(--'' @ name @ '')'')) accum) [] ob"

fun varColorMap :: "vobj \<Rightarrow> obj" where
  "varColorMap ob = foldl (\<lambda>accum (key, n).
     case n of VNode v vr rv \<Rightarrow>
       put vr (case v of VStr s \<Rightarrow> Leaf s | VObj sub \<Rightarrow> Branch (varColorMap sub)) accum) [] ob"

fun keyVarMap :: "vobj \<Rightarrow> obj" where
  "keyVarMap ob = foldl (\<lambda>accum (key, n).
     case n of VNode v vr rv \<Rightarrow>
       put key (case v of VStr s \<Rightarrow> Leaf rv | VObj sub \<Rightarrow> Branch (keyVarMap sub)) accum) [] ob"

fun treeWalk :: "obj \<Rightarrow> (string \<times> string) list" where
  "treeWalk ob = foldl (\<lambda>accum (key, v).
     spread accum (case v of Leaf s \<Rightarrow> [(key, s)] | Branch sub \<Rightarrow> treeWalk sub)) [] ob"

definition objectToCss :: "(string \<times> string) list \<Rightarrow> string" where
  "objectToCss ob = join [CHR 0x0A] (map (\<lambda>(property, v). property @ '': '' @ v @ '';'') ob)"

section \<open>index.js\<close>

text \<open>
  \<open>window\<close> is absent (\<open>None\<close>) or gives the computed style of the document element:
  the function \<open>getPropertyValue\<close>. \<open>resolve\<close> returns a string, or \<open>undefined\<close> (\<open>None\<close>)
  when the default table has no such key.
\<close>

type_synonym window = "string \<Rightarrow> string"

definition resolveFactory ::
    "(string \<times> string) list \<Rightarrow> window option \<Rightarrow> string \<Rightarrow> string option" where
  "resolveFactory defaultVars window value =
     (if substring value 0 5 \<noteq> ''var(--'' then Some value
      else let lookupVal = substring value 4 (int (length value) - 1)
           in case window of
                None \<Rightarrow> map_of defaultVars lookupVal
              | Some getPropertyValue \<Rightarrow> Some (getPropertyValue lookupVal))"

text \<open>
  The default export. \<open>dark || {}\<close> replaces an absent tree by the empty object. The
  fourth component of the result, the React component \<open>DarkModeProvider\<close>, renders \<open>css\<close>
  and is not modelled.
\<close>

record darkMode =
  vars :: obj
  css :: string
  resolve :: "window option \<Rightarrow> string \<Rightarrow> string option"

definition orEmpty :: "obj option \<Rightarrow> obj" where
  "orEmpty t = (case t of None \<Rightarrow> [] | Some ob \<Rightarrow> ob)"

definition makeDarkMode :: "obj option \<Rightarrow> obj option \<Rightarrow> darkMode" where
  "makeDarkMode dark light =
     (let darkModeVars = makeObjectVariables (orEmpty dark) [] [];
          lightModeVars = makeObjectVariables (orEmpty light) [] [];
          vars = spread (spread [] (keyVarMap darkModeVars)) (keyVarMap lightModeVars);
          darkModeCss = objectToCss (treeWalk (varColorMap darkModeVars));
          lightModeCss = objectToCss (treeWalk (varColorMap lightModeVars));
          css = '':root { '' @ lightModeCss @ '' }''
                @ ''@media (prefers-color-scheme: dark){ :root { '' @ darkModeCss @ '' } }''
      in \<lparr> vars = vars, css = css,
           resolve = resolveFactory (treeWalk (varColorMap lightModeVars)) \<rparr>)"

subsection \<open>mergeThemes\<close>

text \<open>
  \<open>mergeThemes\<close> takes any two values: the documented example merges trees whose leaves
  are numbers, and the recursion passes \<open>oldThemeObject[key]\<close>, which may be \<open>undefined\<close>.
  Reading a property of \<open>undefined\<close> or \<open>null\<close> throws a \<open>TypeError\<close>; reading any other
  value finds its own properties (\<open>getProp\<close>), and keys that name a property of a prototype,
  such as \<open>toString\<close> or \<open>constructor\<close>, are outside the model. Numbers are integers
  here. Spreading a string gives its characters under the keys \<open>0\<close>, \<open>1\<close>, ...; spreading
  any other primitive gives nothing.
\<close>

datatype jsval = JUndefined | JNull | JBool bool | JNum int | JStr string
  | JObj "(string \<times> jsval) list"

datatype error = TypeError

fun truthy :: "jsval \<Rightarrow> bool" where
  "truthy JUndefined = False"
| "truthy JNull = False"
| "truthy (JBool b) = b"
| "truthy (JNum n) = (n \<noteq> 0)"
| "truthy (JStr s) = (s \<noteq> [])"
| "truthy (JObj ps) = True"

fun instanceofObject :: "jsval \<Rightarrow> bool" where
  "instanceofObject (JObj ps) = True"
| "instanceofObject v = False"

fun showNat :: "nat \<Rightarrow> string" where
  "showNat n = (if n < 10 then [digitChars ! n] else showNat (n div 10) @ [digitChars ! (n mod 10)])"

fun ownProps :: "jsval \<Rightarrow> (string \<times> jsval) list" where
  "ownProps (JObj ps) = ps"
| "ownProps (JStr s) = map (\<lambda>i. (showNat i, JStr [s ! i])) [0 ..< length s]"
| "ownProps v = []"

fun getProp :: "jsval \<Rightarrow> string \<Rightarrow> error + jsval" where
  "getProp JUndefined key = Inl TypeError"
| "getProp JNull key = Inl TypeError"
| "getProp (JObj ps) key = Inr (case map_of ps key of Some v \<Rightarrow> v | None \<Rightarrow> JUndefined)"
| "getProp (JStr s) key =
     Inr (if isArrayIndex key \<and> decimalVal key < int (length s)
          then JStr [s ! nat (decimalVal key)]
          else if key = ''length'' then JNum (int (length s)) else JUndefined)"
| "getProp v key = Inr JUndefined"

function mergeThemes :: "jsval \<Rightarrow> jsval \<Rightarrow> error + (string \<times> jsval) list" where
  "mergeThemes oldThemeObject newThemeObject =
     foldl (\<lambda>accum key.
       case accum of Inl e \<Rightarrow> Inl e
       | Inr acc \<Rightarrow>
         (case getProp newThemeObject key of Inl e \<Rightarrow> Inl e
          | Inr nv \<Rightarrow>
            if instanceofObject nv then
              (case getProp oldThemeObject key of Inl e \<Rightarrow> Inl e
               | Inr ov \<Rightarrow>
                 (case mergeThemes ov (if truthy nv then nv else JObj []) of Inl e \<Rightarrow> Inl e
                  | Inr merged \<Rightarrow> Inr (put key (JObj merged) acc)))
            else if truthy nv then Inr (put key nv acc)
            else (case getProp oldThemeObject key of Inl e \<Rightarrow> Inl e
                  | Inr ov \<Rightarrow> Inr (put key ov acc))))
       (Inr [])
       (map fst (spread (spread [] (ownProps oldThemeObject)) (ownProps newThemeObject)))"
  by pat_completeness auto
termination
proof (relation "measure (\<lambda>(old, new). size new)")
  show "wf (measure (\<lambda>(old, new). size new))" by simp
next
  fix oldThemeObject newThemeObject :: jsval and key nv ov
  assume g: "getProp newThemeObject key = Inr nv" and io: "instanceofObject nv"
  from io have t: "truthy nv" by (auto elim: instanceofObject.elims)
  have "size nv < size newThemeObject"
  proof (cases newThemeObject)
    case (JObj ps)
    with g io obtain "map_of ps key = Some nv"
      by (cases "map_of ps key") auto
    then have "(key, nv) \<in> set ps" by (rule map_of_SomeD)
    then have "size nv < Suc (size_list (size_prod (\<lambda>_. 0) size) ps)"
      by (induction ps) auto
    with JObj show ?thesis by simp
  qed (use g io in \<open>auto split: if_splits\<close>)
  with t show "((ov, if truthy nv then nv else JObj []), oldThemeObject, newThemeObject)
      \<in> measure (\<lambda>(old, new). size new)" by simp
qed

section \<open>Notions used to state the properties\<close>

subsection \<open>Well-formed objects\<close>

text \<open>
  The keys of an object are pairwise different, and \<open>Object.keys\<close> lists them with the
  array indices first, in ascending order: a later key never has to go before an earlier
  one. Every object has this property; for the lists that represent objects it is an
  invariant, and \<open>wfTree\<close> asks it of a theme tree at every level.
\<close>

definition wfKeys :: "string list \<Rightarrow> bool" where
  "wfKeys ks = (distinct ks \<and> sorted_wrt (\<lambda>a b. \<not> keyBefore b a) ks)"

fun wfTree :: "tree \<Rightarrow> bool" where
  "wfTree (Leaf s) = True"
| "wfTree (Branch ob) = (wfKeys (map fst ob) \<and> list_all (\<lambda>p. wfTree (snd p)) ob)"

subsection \<open>Key structure\<close>

text \<open>The key structure of a tree: the tree with the strings at its leaves erased.\<close>

fun shape :: "tree \<Rightarrow> tree" where
  "shape (Leaf s) = Leaf []"
| "shape (Branch ob) = Branch (map (\<lambda>(k, v). (k, shape v)) ob)"

subsection \<open>Property names of the leaves\<close>

text \<open>
  \<open>leafVars\<close> lists the property names (\<open>var\<close>) of the leaves of a variable tree, depth
  first. A plain key is not empty and has no hyphen, no capital letter (\<open>A\<close>--\<open>Z\<close> or a
  Latin-1 capital, the characters \<open>toLowerCase\<close> changes), no underscore and no space.
\<close>

fun leafVars :: "vobj \<Rightarrow> string list" where
  "leafVars [] = []"
| "leafVars ((key, VNode (VStr s) vr rv) # ob) = vr # leafVars ob"
| "leafVars ((key, VNode (VObj sub) vr rv) # ob) = leafVars sub @ leafVars ob"



subsection \<open>The declarations of a theme tree\<close>

text \<open>
  The declarations of a theme tree, read off the tree itself by a depth-first walk: a leaf
  gives one declaration, under the name \<open>--{prefix-}{derived key}{-suffix}\<close>; a subtree gives
  its own declarations, the prefix extended by the original key. \<open>declarationLines\<close> writes
  them as \<open>name: value;\<close>, one per line, and \<open>specCss\<close> puts the light ones in the \<open>:root\<close>
  block and the dark ones in the media-query block.
\<close>

definition prefixStrOf :: "string \<Rightarrow> string" where
  "prefixStrOf prefix = (if prefix \<noteq> [] then prefix @ ''-'' else [])"

definition suffixStrOf :: "string \<Rightarrow> string" where
  "suffixStrOf suffix = (if suffix \<noteq> [] then ''-'' @ suffix else [])"

fun specDeclarations :: "obj \<Rightarrow> string \<Rightarrow> string \<Rightarrow> (string \<times> string) list" where
  "specDeclarations [] prefix suffix = []"
| "specDeclarations ((key, Leaf s) # ob) prefix suffix =
     (''--'' @ prefixStrOf prefix @ jsNameToCssName key @ suffixStrOf suffix, s)
       # specDeclarations ob prefix suffix"
| "specDeclarations ((key, Branch sub) # ob) prefix suffix =
     specDeclarations sub (prefixStrOf prefix @ key) suffix @ specDeclarations ob prefix suffix"

fun declarationLines :: "(string \<times> string) list \<Rightarrow> string" where
  "declarationLines [] = []"
| "declarationLines [(name, v)] = name @ '': '' @ v @ '';''"
| "declarationLines ((name, v) # d # ds) =
     name @ '': '' @ v @ '';'' @ [CHR 0x0A] @ declarationLines (d # ds)"

definition specCss :: "obj \<Rightarrow> obj \<Rightarrow> string" where
  "specCss dark light =
     '':root { '' @ declarationLines (specDeclarations light [] [])
     @ '' }@media (prefers-color-scheme: dark){ :root { ''
     @ declarationLines (specDeclarations dark [] []) @ '' } }''"

text \<open>
  Two entries of one object collide when they get the same property name; two leaves
  collide when they do, wherever they are in the tree.
\<close>

fun sibDistinct :: "vobj \<Rightarrow> bool" where
  "sibDistinct [] = True"
| "sibDistinct ((key, VNode (VStr s) vr rv) # ob) =
     (vr \<notin> set (map (\<lambda>p. var (snd p)) ob) \<and> sibDistinct ob)"
| "sibDistinct ((key, VNode (VObj sub) vr rv) # ob) =
     (vr \<notin> set (map (\<lambda>p. var (snd p)) ob) \<and> sibDistinct sub \<and> sibDistinct ob)"

definition collisionFree :: "obj \<Rightarrow> bool" where
  "collisionFree T = (sibDistinct (makeObjectVariables T [] [])
     \<and> distinct (leafVars (makeObjectVariables T [] [])))"

subsection \<open>An example pair of themes\<close>

definition exampleLight :: obj where
  "exampleLight = [(''text'', Leaf ''black''), (''grad'', Branch [(''skeleton'', Leaf ''white'')])]"

definition exampleDark :: obj where
  "exampleDark = [(''text'', Leaf ''white''), (''grad'', Branch [(''skeleton'', Leaf ''black'')])]"

definition collidingLight :: obj where
  "collidingLight =
     [(''fooBar'', Leaf ''y''), (''c'', Leaf ''z''), (''foo-bar'', Branch [(''x'', Leaf ''1'')])]"

definition collidingDark :: obj where
  "collidingDark =
     [(''fooBar'', Leaf ''b''), (''c'', Leaf ''d''), (''foo-bar'', Branch [(''x'', Leaf ''2'')])]"

subsection \<open>Auxiliary definitions for the proofs\<close>

text \<open>The bodies of the reducers, by name: what one property contributes.\<close>

definition nodeOf :: "string \<Rightarrow> string \<Rightarrow> string \<Rightarrow> tree \<Rightarrow> vnode" where
  "nodeOf prefix suffix key v =
     (let prefixStr = (if prefix \<noteq> [] then prefix @ ''-'' else []);
         suffixStr = (if suffix \<noteq> [] then ''-'' @ suffix else []);
         name = prefixStr @ jsNameToCssName key @ suffixStr
     in VNode
          (case v of Leaf s \<Rightarrow> VStr s
           | Branch sub \<Rightarrow> VObj (makeObjectVariables sub (prefixStr @ key) suffix))
          (''--'' @ name)
          (''var(--'' @ name @ '')''))"

definition refOf :: "vnode \<Rightarrow> tree" where
  "refOf n = (case n of VNode v vr rv \<Rightarrow>
       (case v of VStr s \<Rightarrow> Leaf rv | VObj sub \<Rightarrow> Branch (keyVarMap sub)))"

definition valueOf :: "vnode \<Rightarrow> tree" where
  "valueOf n = (case n of VNode v vr rv \<Rightarrow>
       (case v of VStr s \<Rightarrow> Leaf s | VObj sub \<Rightarrow> Branch (varColorMap sub)))"

definition walkEntry :: "string \<times> tree \<Rightarrow> (string \<times> string) list" where
  "walkEntry p = (case snd p of Leaf s \<Rightarrow> [(fst p, s)] | Branch sub \<Rightarrow> treeWalk sub)"

definition entryVars :: "string \<Rightarrow> string \<Rightarrow> string \<Rightarrow> tree \<Rightarrow> string list" where
  "entryVars prefix suffix key v =
     (case v of Leaf s \<Rightarrow> [''--'' @ prefixStrOf prefix @ jsNameToCssName key @ suffixStrOf suffix]
      | Branch sub \<Rightarrow> leafVars (makeObjectVariables sub (prefixStrOf prefix @ key) suffix))"

definition entryDecls :: "string \<Rightarrow> string \<Rightarrow> string \<times> tree \<Rightarrow> (string \<times> string) list" where
  "entryDecls prefix suffix p =
     (case snd p of
        Leaf s \<Rightarrow> [(''--'' @ prefixStrOf prefix @ jsNameToCssName (fst p) @ suffixStrOf suffix, s)]
      | Branch sub \<Rightarrow> specDeclarations sub (prefixStrOf prefix @ fst p) suffix)"


section \<open>Lemmas\<close>

declare makeObjectVariables.simps [simp del]
declare varColorMap.simps [simp del]
declare keyVarMap.simps [simp del]
declare treeWalk.simps [simp del]
declare mergeThemes.simps [simp del]
declare showNat.simps [simp del]

subsection \<open>The value resolver\<close>

lemma substring_0_5_length: "length (substring value 0 5) \<le> 5"
  by (simp add: substring_def Let_def)

lemma substring_0_5_not_literal: "substring value 0 5 \<noteq> ''var(--''"
proof
  assume "substring value 0 5 = ''var(--''"
  then have "length (substring value 0 5) = 6" by simp
  with substring_0_5_length [of "value"] show False by simp
qed

lemma resolveFactory_returns_value: "resolveFactory defaultVars window value = Some value"
  by (simp add: resolveFactory_def substring_0_5_not_literal)

lemma resolve_makeDarkMode:
  "resolve (makeDarkMode dark light)
     = resolveFactory (treeWalk (varColorMap (makeObjectVariables (orEmpty light) [] [])))"
  by (simp add: makeDarkMode_def Let_def)

subsection \<open>The name deriver\<close>

lemma jsNameToCssName_fontWeight: "jsNameToCssName ''fontWeight'' = ''font-weight''"
  by code_simp

lemma jsNameToCssName_empty: "jsNameToCssName [] = []"
  by code_simp

subsection \<open>Objects and the reducers\<close>

lemma map_of_replaceValue_if:
  "map_of (replaceValue k v ob)
     = (if k \<in> set (map fst ob) then (map_of ob)(k \<mapsto> v) else map_of ob)"
  by (induction ob) (auto simp: fun_eq_iff)

lemma map_of_replaceValue:
  "k \<in> set (map fst ob) \<Longrightarrow> map_of (replaceValue k v ob) = (map_of ob)(k \<mapsto> v)"
  by (simp add: map_of_replaceValue_if)

lemma map_of_insertKey:
  "map_of (insertKey k v ob) = (map_of ob)(k \<mapsto> v)" if "k \<notin> set (map fst ob)"
  using that by (induction ob) (auto simp: fun_eq_iff)

lemma map_of_put: "map_of (put k v ob) = (map_of ob)(k \<mapsto> v)"
  by (simp add: put_def map_of_replaceValue map_of_insertKey)

lemma keys_replaceValue: "k \<in> set (map fst ob) \<Longrightarrow> map fst (replaceValue k v ob) = map fst ob"
  by (induction ob) auto

lemma keys_insertKey: "set (map fst (insertKey k v ob)) = insert k (set (map fst ob))"
  by (induction ob) auto

lemma keys_put: "set (map fst (put k v ob)) = insert k (set (map fst ob))"
  by (auto simp: put_def keys_replaceValue keys_insertKey simp del: set_map)

lemma insertKey_append:
  "list_all (\<lambda>k'. \<not> keyBefore k k') (map fst ob) \<Longrightarrow> insertKey k v ob = ob @ [(k, v)]"
  by (induction ob) auto

lemma put_append:
  "k \<notin> set (map fst ob) \<Longrightarrow> list_all (\<lambda>k'. \<not> keyBefore k k') (map fst ob)
   \<Longrightarrow> put k v ob = ob @ [(k, v)]"
  by (simp add: put_def insertKey_append)

lemma wfKeys_snoc:
  "wfKeys (ks @ [k]) \<Longrightarrow> k \<notin> set ks \<and> list_all (\<lambda>k'. \<not> keyBefore k k') ks"
  by (auto simp: wfKeys_def sorted_wrt_append list_all_iff)

lemma foldl_put_append:
  "wfKeys (map fst acc @ map fst ob)
   \<Longrightarrow> foldl (\<lambda>a (k, v). put k (g k v) a) acc ob = acc @ map (\<lambda>(k, v). (k, g k v)) ob"
proof (induction ob arbitrary: acc)
  case Nil
  then show ?case by simp
next
  case (Cons p ob)
  obtain k v where p: "p = (k, v)" by (cases p)
  from Cons.prems p have wf1: "wfKeys ((map fst acc @ [k]) @ map fst ob)" by simp
  then have "wfKeys (map fst acc @ [k])"
    by (auto simp: wfKeys_def sorted_wrt_append)
  then have put: "put k (g k v) acc = acc @ [(k, g k v)]"
    by (auto dest!: wfKeys_snoc intro: put_append)
  from wf1 have "wfKeys (map fst (acc @ [(k, g k v)]) @ map fst ob)" by simp
  from Cons.IH [OF this] put p show ?case by simp
qed

lemma reduce_put_map:
  "wfKeys (map fst ob)
   \<Longrightarrow> foldl (\<lambda>a (k, v). put k (g k v) a) [] ob = map (\<lambda>(k, v). (k, g k v)) ob"
  using foldl_put_append [of "[]" ob g] by simp

lemma makeObjectVariables_fold:
  "makeObjectVariables ob prefix suffix
     = foldl (\<lambda>accum (key, v). put key (nodeOf prefix suffix key v) accum) [] ob"
  by (subst makeObjectVariables.simps) (simp add: nodeOf_def Let_def)

lemma makeObjectVariables_map:
  "wfKeys (map fst ob)
   \<Longrightarrow> makeObjectVariables ob prefix suffix = map (\<lambda>(key, v). (key, nodeOf prefix suffix key v)) ob"
  by (simp add: makeObjectVariables_fold reduce_put_map)

lemma keyVarMap_fold:
  "keyVarMap ob = foldl (\<lambda>accum (key, n). put key (refOf n) accum) [] ob"
  by (subst keyVarMap.simps, rule foldl_cong) (auto simp: refOf_def split: vnode.split)

lemma keyVarMap_map:
  "wfKeys (map fst ob) \<Longrightarrow> keyVarMap ob = map (\<lambda>(key, n). (key, refOf n)) ob"
  by (simp add: keyVarMap_fold reduce_put_map)

lemma obj_induct [case_names obj]:
  assumes step: "\<And>ob. (\<And>k sub. (k, Branch sub) \<in> set ob \<Longrightarrow> P sub) \<Longrightarrow> P ob"
  shows "P ob"
proof -
  have "\<forall>sub. t = Branch sub \<longrightarrow> P sub" for t
  proof (induction t)
    case (Leaf s)
    show ?case by simp
  next
    case (Branch ob)
    have "P ob"
    proof (rule step)
      fix k sub assume "(k, Branch sub) \<in> set ob"
      then show "P sub" using Branch.IH [of "(k, Branch sub)" "Branch sub"] by auto
    qed
    then show ?case by simp
  qed
  then show ?thesis by blast
qed

lemma shape_roundtrip:
  "wfTree (Branch T)
   \<Longrightarrow> shape (Branch (keyVarMap (makeObjectVariables T prefix suffix))) = shape (Branch T)"
proof (induction T arbitrary: prefix rule: obj_induct)
  case (obj ob)
  from obj.prems have wf: "wfKeys (map fst ob)" by simp
  have keys: "map fst (map (\<lambda>(key, v). (key, nodeOf prefix suffix key v)) ob) = map fst ob"
    by (induction ob) auto
  have entry: "shape (refOf (nodeOf prefix suffix k v)) = shape v" if "(k, v) \<in> set ob" for k v
  proof (cases v)
    case (Leaf s)
    then show ?thesis by (simp add: refOf_def nodeOf_def Let_def)
  next
    case (Branch sub)
    from obj.prems have "list_all (\<lambda>p. wfTree (snd p)) ob" by simp
    with that have "wfTree v" by (auto simp: list_all_iff)
    with Branch have "wfTree (Branch sub)" by simp
    from obj.IH [OF that [unfolded Branch] this] Branch
    show ?thesis by (simp add: refOf_def nodeOf_def Let_def)
  qed
  have "keyVarMap (makeObjectVariables ob prefix suffix)
      = map (\<lambda>(key, v). (key, refOf (nodeOf prefix suffix key v))) ob"
    using wf keys by (simp add: makeObjectVariables_map keyVarMap_map case_prod_unfold comp_def)
  then show ?case using entry by (auto simp: case_prod_unfold)
qed

lemma distinct_insertKey:
  "distinct (map fst ob) \<Longrightarrow> k \<notin> set (map fst ob) \<Longrightarrow> distinct (map fst (insertKey k v ob))"
proof (induction ob)
  case Nil
  show ?case by simp
next
  case (Cons p ob)
  then have "fst p \<notin> set (map fst (insertKey k v ob))"
    by (simp only: keys_insertKey) auto
  with Cons show ?case by auto
qed

lemma distinct_put: "distinct (map fst ob) \<Longrightarrow> distinct (map fst (put k v ob))"
  by (simp add: put_def keys_replaceValue distinct_insertKey del: set_map)

lemma distinct_reduce_put:
  "distinct (map fst acc) \<Longrightarrow> distinct (map fst (foldl (\<lambda>a (k, v). put k (g k v) a) acc ob))"
proof (induction ob arbitrary: acc)
  case Nil
  then show ?case by simp
next
  case (Cons p ob)
  obtain k v where p: "p = (k, v)" by (cases p)
  from Cons.prems have "distinct (map fst (put k (g k v) acc))" by (rule distinct_put)
  from Cons.IH [OF this] p show ?case by simp
qed

lemma map_of_spread:
  "distinct (map fst ob)
   \<Longrightarrow> map_of (spread acc ob) x = (case map_of ob x of Some e \<Rightarrow> Some e | None \<Rightarrow> map_of acc x)"
  unfolding spread_def
proof (induction ob arbitrary: acc)
  case Nil
  show ?case by simp
next
  case (Cons p ob)
  obtain k v where p: "p = (k, v)" by (cases p)
  from Cons.prems p have d: "distinct (map fst ob)" and notin: "k \<notin> set (map fst ob)" by auto
  from notin have "map_of ob k = None" by (simp add: map_of_eq_None_iff)
  with Cons.IH [OF d, of "put k v acc"] p show ?case
    by (auto simp: map_of_put split: option.splits)
qed

lemma keys_reduce_put:
  "set (map fst (foldl (\<lambda>a (k, v). put k (g k v) a) acc ob)) = set (map fst acc) \<union> set (map fst ob)"
proof (induction ob arbitrary: acc)
  case Nil
  show ?case by simp
next
  case (Cons p ob)
  obtain k v where p: "p = (k, v)" by (cases p)
  show ?case using Cons.IH [of "put k (g k v) acc"] p keys_put [of k "g k v" acc]
    by (auto simp del: set_map)
qed

lemma keys_makeObjectVariables:
  "set (map fst (makeObjectVariables ob prefix suffix)) = set (map fst ob)"
  using keys_reduce_put [of "nodeOf prefix suffix" "[]" ob]
  by (simp add: makeObjectVariables_fold del: set_map)

lemma keys_keyVarMap: "set (map fst (keyVarMap ob)) = set (map fst ob)"
  using keys_reduce_put [of "\<lambda>k. refOf" "[]" ob]
  by (simp add: keyVarMap_fold del: set_map)

lemma vars_makeDarkMode:
  "vars (makeDarkMode dark light)
     = spread (spread [] (keyVarMap (makeObjectVariables (orEmpty dark) [] [])))
         (keyVarMap (makeObjectVariables (orEmpty light) [] []))"
  by (simp add: makeDarkMode_def Let_def)

lemma map_of_None_keys: "(map_of ob k = None) = (k \<notin> set (map fst ob))"
  by (simp add: map_of_eq_None_iff)

lemma leafVars_concat:
  "leafVars ob = concat (map (\<lambda>(key, n).
     case n of VNode v vr rv \<Rightarrow> (case v of VStr s \<Rightarrow> [vr] | VObj sub \<Rightarrow> leafVars sub)) ob)"
  by (induction ob rule: leafVars.induct) simp_all

lemma nodeOf_Leaf:
  "nodeOf prefix suffix key (Leaf s)
     = VNode (VStr s) (''--'' @ prefixStrOf prefix @ jsNameToCssName key @ suffixStrOf suffix)
         (''var(--'' @ prefixStrOf prefix @ jsNameToCssName key @ suffixStrOf suffix @ '')'')"
  by (simp add: nodeOf_def prefixStrOf_def suffixStrOf_def)

lemma nodeOf_Branch:
  "nodeOf prefix suffix key (Branch sub)
     = VNode (VObj (makeObjectVariables sub (prefixStrOf prefix @ key) suffix))
         (''--'' @ prefixStrOf prefix @ jsNameToCssName key @ suffixStrOf suffix)
         (''var(--'' @ prefixStrOf prefix @ jsNameToCssName key @ suffixStrOf suffix @ '')'')"
  by (simp add: nodeOf_def prefixStrOf_def suffixStrOf_def)

lemma leafVars_makeObjectVariables:
  assumes "wfKeys (map fst ob)"
  shows "leafVars (makeObjectVariables ob prefix suffix)
     = concat (map (\<lambda>(key, v). entryVars prefix suffix key v) ob)"
proof -
  have "(case nodeOf prefix suffix key v of VNode v vr rv \<Rightarrow>
           (case v of VStr s \<Rightarrow> [vr] | VObj sub \<Rightarrow> leafVars sub))
        = entryVars prefix suffix key v" for key v
    by (cases v) (simp_all add: nodeOf_Leaf nodeOf_Branch entryVars_def)
  then show ?thesis
    by (subst leafVars_concat)
       (simp add: makeObjectVariables_map [OF assms] comp_def case_prod_unfold)
qed



lemma lowerChar_changes_capitals:
  "list_all (\<lambda>c. lowerChar c \<noteq> c) (upperChars @ latin1Upper)"
  by code_simp

lemma toLowerCase_latin1:
  "jsNameToCssName [CHR ''a'', CHR 0xC9, CHR ''B'', CHR 0xDC]
     = [CHR ''a'', CHR 0xE9, CHR ''-'', CHR ''b'', CHR 0xFC]"
  by code_simp



lemma leafVars_prefixed:
  "wfTree (Branch ob) \<Longrightarrow> n \<in> set (leafVars (makeObjectVariables ob prefix suffix))
   \<Longrightarrow> \<exists>r. n = ''--'' @ prefixStrOf prefix @ r"
proof (induction ob arbitrary: prefix n rule: obj_induct)
  case (obj ob)
  from obj.prems(1) have wf: "wfKeys (map fst ob)" by simp
  from obj.prems(2) obtain k v where kv: "(k, v) \<in> set ob" and n: "n \<in> set (entryVars prefix suffix k v)"
    by (auto simp: leafVars_makeObjectVariables [OF wf])
  show ?case
  proof (cases v)
    case (Leaf s)
    with n show ?thesis by (simp add: entryVars_def)
  next
    case (Branch sub)
    from obj.prems(1) have "list_all (\<lambda>p. wfTree (snd p)) ob" by simp
    with kv have "wfTree v" by (auto simp: list_all_iff)
    with Branch have wfs: "wfTree (Branch sub)" by simp
    from n Branch have "n \<in> set (leafVars (makeObjectVariables sub (prefixStrOf prefix @ k) suffix))"
      by (simp add: entryVars_def)
    from obj.IH [OF kv [unfolded Branch] wfs this]
    obtain r where r: "n = ''--'' @ prefixStrOf (prefixStrOf prefix @ k) @ r" by blast
    show ?thesis
    proof (cases "prefixStrOf prefix @ k = []")
      case True
      then have "prefixStrOf prefix = []" by simp
      with r show ?thesis by simp
    next
      case False
      with r have "n = ''--'' @ prefixStrOf prefix @ (k @ ''-'' @ r)"
        by (simp add: prefixStrOf_def [of "prefixStrOf prefix @ k"])
      then show ?thesis by blast
    qed
  qed
qed



lemma sibDistinct_distinct: "sibDistinct ob \<Longrightarrow> distinct (map (\<lambda>p. var (snd p)) ob)"
  by (induction ob rule: sibDistinct.induct) simp_all

lemma objectToCss_lines: "objectToCss ds = declarationLines ds"
  unfolding objectToCss_def
  by (induction ds rule: declarationLines.induct) simp_all

lemma foldl_put_append_gen:
  "wfKeys (map fst acc @ map kf xs)
   \<Longrightarrow> foldl (\<lambda>a x. put (kf x) (g x) a) acc xs = acc @ map (\<lambda>x. (kf x, g x)) xs"
proof (induction xs arbitrary: acc)
  case Nil
  then show ?case by simp
next
  case (Cons x xs)
  from Cons.prems have wf1: "wfKeys ((map fst acc @ [kf x]) @ map kf xs)" by simp
  then have "wfKeys (map fst acc @ [kf x])"
    by (auto simp: wfKeys_def sorted_wrt_append)
  then have put: "put (kf x) (g x) acc = acc @ [(kf x, g x)]"
    by (auto dest!: wfKeys_snoc intro: put_append)
  from wf1 have "wfKeys (map fst (acc @ [(kf x, g x)]) @ map kf xs)" by simp
  from Cons.IH [OF this] put show ?case by simp
qed

lemma spread_append:
  "wfKeys (map fst acc @ map fst ob) \<Longrightarrow> spread acc ob = acc @ ob"
  using foldl_put_append_gen [of acc fst ob snd]
  by (simp add: spread_def case_prod_unfold)

lemma wfKeys_appendD: "wfKeys (ks @ ks') \<Longrightarrow> wfKeys ks"
  by (auto simp: wfKeys_def sorted_wrt_append)

lemma reduce_spread_concat:
  "wfKeys (map fst (acc @ concat (map h xs)))
   \<Longrightarrow> foldl (\<lambda>a x. spread a (h x)) acc xs = acc @ concat (map h xs)"
proof (induction xs arbitrary: acc)
  case Nil
  then show ?case by simp
next
  case (Cons x xs)
  from Cons.prems have wf1: "wfKeys (map fst ((acc @ h x) @ concat (map h xs)))" by simp
  then have "wfKeys (map fst acc @ map fst (h x))"
    using wfKeys_appendD [of "map fst acc @ map fst (h x)" "map fst (concat (map h xs))"]
    by simp
  then have "spread acc (h x) = acc @ h x" by (rule spread_append)
  with Cons.IH [OF wf1] show ?case by simp
qed

lemma not_isArrayIndex_dashed: "\<not> isArrayIndex (''--'' @ n)"
  by (simp add: isArrayIndex_def digitChars_def)

lemma wfKeys_no_index:
  "distinct ks \<Longrightarrow> list_all (\<lambda>k. \<not> isArrayIndex k) ks \<Longrightarrow> wfKeys ks"
proof -
  assume d: "distinct ks" and ni: "list_all (\<lambda>k. \<not> isArrayIndex k) ks"
  from ni have "sorted_wrt (\<lambda>a b. \<not> keyBefore b a) ks"
    by (induction ks) (auto simp: keyBefore_def list_all_iff)
  with d show ?thesis by (simp add: wfKeys_def)
qed

lemma specDeclarations_concat:
  "specDeclarations ob prefix suffix = concat (map (entryDecls prefix suffix) ob)"
  by (induction ob prefix suffix rule: specDeclarations.induct) (simp_all add: entryDecls_def)

lemma var_nodeOf:
  "var (nodeOf prefix suffix key v)
     = ''--'' @ prefixStrOf prefix @ jsNameToCssName key @ suffixStrOf suffix"
  by (simp add: nodeOf_def prefixStrOf_def suffixStrOf_def)

lemma keys_specDeclarations:
  "wfTree (Branch ob)
   \<Longrightarrow> map fst (specDeclarations ob prefix suffix) = leafVars (makeObjectVariables ob prefix suffix)"
proof (induction ob arbitrary: prefix rule: obj_induct)
  case (obj ob)
  from obj.prems have wf: "wfKeys (map fst ob)"
    and wfs: "list_all (\<lambda>p. wfTree (snd p)) ob" by simp_all
  have "map fst (entryDecls prefix suffix p) = entryVars prefix suffix (fst p) (snd p)"
    if "p \<in> set ob" for p
  proof (cases "snd p")
    case (Leaf s)
    then show ?thesis by (simp add: entryDecls_def entryVars_def)
  next
    case (Branch sub)
    from that wfs have "wfTree (snd p)" by (auto simp: list_all_iff)
    with Branch have "wfTree (Branch sub)" by simp
    moreover from that Branch have "(fst p, Branch sub) \<in> set ob" by (metis prod.collapse)
    ultimately show ?thesis using Branch obj.IH [of "fst p" sub "prefixStrOf prefix @ fst p"]
      by (simp add: entryDecls_def entryVars_def)
  qed
  then have eq: "map (\<lambda>p. map fst (entryDecls prefix suffix p)) ob
      = map (\<lambda>p. entryVars prefix suffix (fst p) (snd p)) ob" by simp
  have "map fst (specDeclarations ob prefix suffix)
      = concat (map (\<lambda>p. map fst (entryDecls prefix suffix p)) ob)"
    by (simp add: specDeclarations_concat map_concat comp_def)
  also have "\<dots> = leafVars (makeObjectVariables ob prefix suffix)"
    by (simp only: eq leafVars_makeObjectVariables [OF wf] case_prod_unfold)
  finally show ?case .
qed

lemma leafVars_dashed:
  "wfTree (Branch ob) \<Longrightarrow> list_all (\<lambda>k. \<not> isArrayIndex k) (leafVars (makeObjectVariables ob prefix suffix))"
  unfolding list_all_iff
proof
  fix n assume "wfTree (Branch ob)" "n \<in> set (leafVars (makeObjectVariables ob prefix suffix))"
  then obtain r where "n = ''--'' @ prefixStrOf prefix @ r" by (blast dest: leafVars_prefixed)
  then show "\<not> isArrayIndex n" using not_isArrayIndex_dashed [of "prefixStrOf prefix @ r"] by simp
qed

lemma varColorMap_fold:
  "varColorMap ob = foldl (\<lambda>accum p. put (var (snd p)) (valueOf (snd p)) accum) [] ob"
  by (subst varColorMap.simps, rule foldl_cong) (auto simp: valueOf_def split: vnode.split)

lemma varColorMap_map:
  "wfKeys (map (\<lambda>p. var (snd p)) ob)
   \<Longrightarrow> varColorMap ob = map (\<lambda>p. (var (snd p), valueOf (snd p))) ob"
  using foldl_put_append_gen [of "[]" "\<lambda>p. var (snd p)" ob "\<lambda>p. valueOf (snd p)"]
  by (simp add: varColorMap_fold)

lemma treeWalk_fold: "treeWalk ob = foldl (\<lambda>accum p. spread accum (walkEntry p)) [] ob"
  by (subst treeWalk.simps, rule foldl_cong) (auto simp: walkEntry_def split: tree.split)

lemma sibDistinct_sub:
  "sibDistinct ob \<Longrightarrow> (k, VNode (VObj sub) vr rv) \<in> set ob \<Longrightarrow> sibDistinct sub"
  by (induction ob rule: sibDistinct.induct) auto

lemma distinct_concat_member:
  "distinct (concat xss) \<Longrightarrow> xs \<in> set xss \<Longrightarrow> distinct xs"
  by (induction xss) auto

lemma treeWalk_specDeclarations:
  "wfTree (Branch T) \<Longrightarrow> sibDistinct (makeObjectVariables T prefix suffix)
   \<Longrightarrow> distinct (leafVars (makeObjectVariables T prefix suffix))
   \<Longrightarrow> treeWalk (varColorMap (makeObjectVariables T prefix suffix))
       = specDeclarations T prefix suffix"
proof (induction T arbitrary: prefix rule: obj_induct)
  case (obj ob)
  let ?V = "makeObjectVariables ob prefix suffix"
  from obj.prems(1) have wf: "wfKeys (map fst ob)"
    and wfs: "list_all (\<lambda>p. wfTree (snd p)) ob" by simp_all
  have V: "?V = map (\<lambda>p. (fst p, nodeOf prefix suffix (fst p) (snd p))) ob"
    by (simp add: makeObjectVariables_map [OF wf] case_prod_unfold)
  from obj.prems(2) have "distinct (map (\<lambda>p. var (snd p)) ?V)"
    by (rule sibDistinct_distinct)
  moreover have "list_all (\<lambda>k. \<not> isArrayIndex k) (map (\<lambda>p. var (snd p)) ?V)"
    by (simp add: V list_all_iff var_nodeOf not_isArrayIndex_dashed [simplified])
  ultimately have "wfKeys (map (\<lambda>p. var (snd p)) ?V)" by (rule wfKeys_no_index)
  then have vcm: "varColorMap ?V
      = map (\<lambda>p. (var (nodeOf prefix suffix (fst p) (snd p)),
                    valueOf (nodeOf prefix suffix (fst p) (snd p)))) ob"
    by (simp add: varColorMap_map V comp_def)
  have entry: "walkEntry (var (nodeOf prefix suffix (fst p) (snd p)),
                    valueOf (nodeOf prefix suffix (fst p) (snd p)))
      = entryDecls prefix suffix p" if "p \<in> set ob" for p
  proof (cases "snd p")
    case (Leaf s)
    then show ?thesis
      by (simp add: walkEntry_def entryDecls_def valueOf_def nodeOf_Leaf)
  next
    case (Branch sub)
    let ?p' = "prefixStrOf prefix @ fst p"
    from that Branch have mem: "(fst p, Branch sub) \<in> set ob" by (metis prod.collapse)
    from that wfs have "wfTree (snd p)" by (auto simp: list_all_iff)
    with Branch have wfsub: "wfTree (Branch sub)" by simp
    from that Branch have "(fst p, nodeOf prefix suffix (fst p) (Branch sub)) \<in> set ?V"
      by (auto simp: V intro!: image_eqI [of _ _ p])
    with obj.prems(2) have sd: "sibDistinct (makeObjectVariables sub ?p' suffix)"
      by (auto simp: nodeOf_Branch dest: sibDistinct_sub)
    from Branch have "entryVars prefix suffix (fst p) (snd p)
        = leafVars (makeObjectVariables sub ?p' suffix)" by (simp add: entryVars_def)
    with that have "leafVars (makeObjectVariables sub ?p' suffix)
        \<in> set (map (\<lambda>p. entryVars prefix suffix (fst p) (snd p)) ob)"
      by (metis (no_types, lifting) image_eqI list.set_map)
    moreover from obj.prems(3)
    have "distinct (concat (map (\<lambda>p. entryVars prefix suffix (fst p) (snd p)) ob))"
      by (simp only: leafVars_makeObjectVariables [OF wf] case_prod_unfold)
    ultimately have dl: "distinct (leafVars (makeObjectVariables sub ?p' suffix))"
      by (rule distinct_concat_member [rotated])
    from obj.IH [OF mem wfsub sd dl] Branch show ?thesis
      by (simp add: walkEntry_def entryDecls_def valueOf_def nodeOf_Branch)
  qed
  have "treeWalk (varColorMap ?V)
      = foldl (\<lambda>accum p. spread accum (entryDecls prefix suffix p)) [] ob"
    unfolding treeWalk_fold vcm foldl_map
    by (rule foldl_cong) (simp_all add: entry)
  also have "\<dots> = [] @ concat (map (entryDecls prefix suffix) ob)"
  proof (rule reduce_spread_concat)
    have "map fst (concat (map (entryDecls prefix suffix) ob)) = leafVars ?V"
      using keys_specDeclarations [OF obj.prems(1)] by (simp add: specDeclarations_concat)
    with obj.prems(3) leafVars_dashed [OF obj.prems(1), of prefix suffix]
    show "wfKeys (map fst ([] @ concat (map (entryDecls prefix suffix) ob)))"
      by (simp add: wfKeys_no_index)
  qed
  finally show ?case by (simp add: specDeclarations_concat)
qed

lemma css_makeDarkMode:
  "css (makeDarkMode dark light)
     = '':root { '' @ objectToCss (treeWalk (varColorMap (makeObjectVariables (orEmpty light) [] [])))
       @ '' }@media (prefers-color-scheme: dark){ :root { ''
       @ objectToCss (treeWalk (varColorMap (makeObjectVariables (orEmpty dark) [] []))) @ '' } }''"
  by (simp add: makeDarkMode_def Let_def)

section \<open>The value resolver\<close>

text \<open>
  C1. The claim: for \<open>dark: {text: "white"}, light: {text: "black"}\<close>, resolving
  \<open>"var(--text)"\<close> without a window returns \<open>"black"\<close>. The code compares the first five
  characters of the value with the six characters \<open>var(--\<close>, which never agree, and
  returns the reference itself: the light default \<open>black\<close> is in the table under
  \<open>--text\<close>, but the lookup is never reached.
\<close>

theorem C1_resolve_returns_reference:
  "resolve (makeDarkMode (Some [(''text'', Leaf ''white'')]) (Some [(''text'', Leaf ''black'')]))
      None ''var(--text)'' = Some ''var(--text)''
   \<and> map_of (treeWalk (varColorMap (makeObjectVariables [(''text'', Leaf ''black'')] [] [])))
        ''--text'' = Some ''black''"
  by code_simp

text \<open>
  C9. A value that does not begin with \<open>var(--\<close> is returned unchanged, with or without a
  window, whatever the themes; so is, in particular, a value that does not begin with the
  five characters \<open>var(-\<close>, and so is \<open>black\<close>.
\<close>

theorem C9_non_reference_passthrough:
  "take 6 value \<noteq> ''var(--'' \<Longrightarrow> resolve (makeDarkMode dark light) window value = Some value"
  by (simp add: resolve_makeDarkMode resolveFactory_returns_value)

theorem C9_non_reference_passthrough_witness:
  "take 6 ''black'' \<noteq> ''var(--''
   \<and> resolve (makeDarkMode (Some [(''text'', Leaf ''white'')]) (Some [(''text'', Leaf ''black'')]))
        None ''black'' = Some ''black''"
proof -
  have h: "take 6 ''black'' \<noteq> ''var(--''" by simp
  from C9_non_reference_passthrough [OF h] h show ?thesis by blast
qed

text \<open>
  C10. Without a window, \<open>resolve\<close> is the identity on every string: the test
  \<open>value.substring(0, 5) !== 'var(--'\<close> holds for every value, so the lookup in the table of
  defaults is unreachable, also for a well-formed reference.
\<close>

theorem C10_resolve_identity_without_window:
  "resolve (makeDarkMode dark light) None value = Some value"
  by (simp add: resolve_makeDarkMode resolveFactory_returns_value)

section \<open>The name deriver\<close>

text \<open>
  C4. The claim: \<open>bg_color\<close> becomes \<open>bg-color\<close> (the documentation of the function:
  word separators are replaced with \<open>-\<close>). The split keeps the underscore at the head of
  the second segment, so the code gives \<open>bg-_color\<close>.
\<close>

theorem C4_bg_color_keeps_underscore:
  "jsNameToCssName ''bg_color'' = ''bg-_color''"
  by code_simp

section \<open>The variable tree and its reference map\<close>

text \<open>
  C5. For every theme tree \<open>T\<close>, the reference map of the variable tree built from \<open>T\<close>
  (with any prefix and suffix) has the key structure of \<open>T\<close>: the same keys in the same
  order at every level, leaves where \<open>T\<close> has leaves and subtrees where \<open>T\<close> has subtrees.
  The hypothesis is the invariant of the representation: \<open>T\<close> lists the properties of an
  object, which has each key once, in the order of \<open>Object.keys\<close>.
\<close>

theorem C5_reference_map_shape:
  "wfTree (Branch T)
   \<Longrightarrow> shape (Branch (keyVarMap (makeObjectVariables T prefix suffix))) = shape (Branch T)"
  by (rule shape_roundtrip)

theorem C5_reference_map_shape_witness:
  "wfTree (Branch exampleLight)
   \<and> shape (Branch (keyVarMap (makeObjectVariables exampleLight [] [])))
       = Branch [(''text'', Leaf []), (''grad'', Branch [(''skeleton'', Leaf [])])]"
proof -
  have h: "wfTree (Branch exampleLight)" by code_simp
  have "shape (Branch exampleLight)
      = Branch [(''text'', Leaf []), (''grad'', Branch [(''skeleton'', Leaf [])])]"
    by code_simp
  with C5_reference_map_shape [OF h, of "[]" "[]"] h show ?thesis by simp
qed



text \<open>
  Each exclusion in \<open>plainKey\<close> is needed. Two leaves get one name in each of these trees:
  \<open>{a: {b: "x"}, aB: "y"}\<close> (a capital), \<open>{a: {_b: "x"}, a_b: "y"}\<close> (an underscore),
  \<open>{a: {" b": "x"}, "a b": "y"}\<close> (a space), \<open>{"": {a: "x"}, a: "y"}\<close> (an empty key), and
  the tree with the keys \<open>U+00C9\<close> and \<open>U+00E9\<close> (a Latin-1 capital and its lower-case
  letter).
\<close>

lemma plainKey_exclusions_needed:
  "leafVars (makeObjectVariables [(''a'', Branch [(''b'', Leaf ''x'')]), (''aB'', Leaf ''y'')] [] [])
     = [''--a-b'', ''--a-b'']
   \<and> leafVars (makeObjectVariables [(''a'', Branch [(''_b'', Leaf ''x'')]), (''a_b'', Leaf ''y'')] [] [])
     = [''--a-_b'', ''--a-_b'']
   \<and> leafVars (makeObjectVariables [(''a'', Branch [('' b'', Leaf ''x'')]), (''a b'', Leaf ''y'')] [] [])
     = [''--a- b'', ''--a- b'']
   \<and> leafVars (makeObjectVariables [([], Branch [(''a'', Leaf ''x'')]), (''a'', Leaf ''y'')] [] [])
     = [''--a'', ''--a'']
   \<and> leafVars (makeObjectVariables [([CHR 0xC9], Leaf ''x''), ([CHR 0xE9], Leaf ''y'')] [] [])
     = [[CHR ''-'', CHR ''-'', CHR 0xE9], [CHR ''-'', CHR ''-'', CHR 0xE9]]"
  by code_simp


section \<open>The entry point\<close>

text \<open>
  C3, amended. For every pair of dark and light theme trees, \<open>vars\<close> is the shallow merge of
  the light reference map over the dark reference map: a top-level key that the light tree
  has carries the entry of the light reference map (also when one side has a leaf there and
  the other a subtree), and any other key carries the entry of the dark reference map.
\<close>

theorem C3_vars_light_over_dark:
  "map_of (vars (makeDarkMode dark light)) k
     = (if k \<in> set (map fst (orEmpty light))
        then map_of (keyVarMap (makeObjectVariables (orEmpty light) [] [])) k
        else map_of (keyVarMap (makeObjectVariables (orEmpty dark) [] [])) k)"
proof -
  let ?L = "keyVarMap (makeObjectVariables (orEmpty light) [] [])"
  have "(map_of ?L k = None) = (k \<notin> set (map fst (orEmpty light)))"
    by (simp only: map_of_None_keys keys_keyVarMap keys_makeObjectVariables)
  moreover have d: "distinct (map fst (keyVarMap V))" for V
    using distinct_reduce_put [of "[]" "\<lambda>k. refOf"] by (simp add: keyVarMap_fold)
  ultimately show ?thesis
    by (auto simp: vars_makeDarkMode map_of_spread [OF d] split: option.splits)
qed

text \<open>
  The counterexample to C3 as stated: with \<open>dark: {a: "x"}\<close> and \<open>light: {a: {b: "y"}}\<close> the
  entry of \<open>vars\<close> under \<open>a\<close> is the subtree of the light reference map, not the leaf
  \<open>var(--a)\<close> of the dark one.
\<close>

theorem C3_dark_entry_replaced:
  "map_of (vars (makeDarkMode (Some [(''a'', Leaf ''x'')]) (Some [(''a'', Branch [(''b'', Leaf ''y'')])]))) ''a''
     = Some (Branch [(''b'', Leaf ''var(--a-b)'')])
   \<and> map_of (keyVarMap (makeObjectVariables [(''a'', Leaf ''x'')] [] [])) ''a''
     = Some (Leaf ''var(--a)'')
   \<and> map_of (vars (makeDarkMode (Some [(''a'', Leaf ''x'')]) (Some [(''a'', Branch [(''b'', Leaf ''y'')])]))) ''a''
     \<noteq> map_of (keyVarMap (makeObjectVariables [(''a'', Leaf ''x'')] [] [])) ''a''"
  by code_simp

text \<open>
  C2, amended. For every pair of dark and light theme trees in which no two entries of one
  object and no two leaves get the same property name, the \<open>css\<close> string is exactly
  \<open>:root { <light declarations> }@media (prefers-color-scheme: dark){ :root { <dark declarations> } }\<close>,
  each section being the \<open>--{name}: {value};\<close> lines of the leaves of that variant's tree,
  joined by newlines, in the order of a depth-first walk of the tree.
\<close>

theorem C2_css_collision_free:
  assumes "wfTree (Branch (orEmpty dark))" "wfTree (Branch (orEmpty light))"
    and "collisionFree (orEmpty dark)" "collisionFree (orEmpty light)"
  shows "css (makeDarkMode dark light) = specCss (orEmpty dark) (orEmpty light)"
  using assms
  by (simp add: css_makeDarkMode specCss_def collisionFree_def objectToCss_lines
        treeWalk_specDeclarations)

theorem C2_css_collision_free_witness:
  "wfTree (Branch (orEmpty (Some exampleDark))) \<and> wfTree (Branch (orEmpty (Some exampleLight)))
   \<and> collisionFree (orEmpty (Some exampleDark)) \<and> collisionFree (orEmpty (Some exampleLight))
   \<and> css (makeDarkMode (Some exampleDark) (Some exampleLight))
       = '':root { --text: black;'' @ [CHR 0x0A] @ ''--grad-skeleton: white; }''
         @ ''@media (prefers-color-scheme: dark){ :root { --text: white;'' @ [CHR 0x0A]
         @ ''--grad-skeleton: black; } }''"
proof -
  have h1: "wfTree (Branch (orEmpty (Some exampleDark)))" by code_simp
  have h2: "wfTree (Branch (orEmpty (Some exampleLight)))" by code_simp
  have h3: "collisionFree (orEmpty (Some exampleDark))" by code_simp
  have h4: "collisionFree (orEmpty (Some exampleLight))" by code_simp
  have e: "specCss (orEmpty (Some exampleDark)) (orEmpty (Some exampleLight))
       = '':root { --text: black;'' @ [CHR 0x0A] @ ''--grad-skeleton: white; }''
         @ ''@media (prefers-color-scheme: dark){ :root { --text: white;'' @ [CHR 0x0A]
         @ ''--grad-skeleton: black; } }''"
    by code_simp
  have "css (makeDarkMode (Some exampleDark) (Some exampleLight))
      = specCss (orEmpty (Some exampleDark)) (orEmpty (Some exampleLight))"
    by (rule C2_css_collision_free [OF h1 h2 h3 h4])
  with e h1 h2 h3 h4 show ?thesis by (simp only: simp_thms)
qed

text \<open>
  The counterexample to C2 as stated: in \<open>{fooBar: .., c: .., "foo-bar": {x: ..}}\<close> the
  entries \<open>fooBar\<close> and \<open>foo-bar\<close> both get the name \<open>--foo-bar\<close>. The subtree takes the place
  of the leaf in the value map, so the declaration of the leaf \<open>fooBar\<close> is missing and the
  declaration of \<open>x\<close>, the last leaf of the walk, comes before the one of \<open>c\<close>.
\<close>

theorem C2_css_order_counterexample:
  "wfTree (Branch collidingLight) \<and> wfTree (Branch collidingDark)
   \<and> css (makeDarkMode (Some collidingDark) (Some collidingLight))
       = '':root { --foo-bar-x: 1;'' @ [CHR 0x0A] @ ''--c: z; }''
         @ ''@media (prefers-color-scheme: dark){ :root { --foo-bar-x: 2;'' @ [CHR 0x0A]
         @ ''--c: d; } }''
   \<and> specCss collidingDark collidingLight
       = '':root { --foo-bar: y;'' @ [CHR 0x0A] @ ''--c: z;'' @ [CHR 0x0A] @ ''--foo-bar-x: 1; }''
         @ ''@media (prefers-color-scheme: dark){ :root { --foo-bar: b;'' @ [CHR 0x0A]
         @ ''--c: d;'' @ [CHR 0x0A] @ ''--foo-bar-x: 2; } }''
   \<and> css (makeDarkMode (Some collidingDark) (Some collidingLight))
       \<noteq> specCss collidingDark collidingLight"
  by code_simp

section \<open>The tree merger\<close>

text \<open>
  C7. \<open>mergeThemes({a: 1, b: {c: 2, d: 3}}, {b: {c: 9}})\<close> returns
  \<open>{a: 1, b: {c: 9, d: 3}}\<close>: \<open>a\<close> and \<open>d\<close>, which only the old tree has, survive; \<open>b\<close>,
  which both have, is merged recursively; at \<open>c\<close> the new value wins.
\<close>

theorem C7_mergeThemes_example:
  "mergeThemes
     (JObj [(''a'', JNum 1), (''b'', JObj [(''c'', JNum 2), (''d'', JNum 3)])])
     (JObj [(''b'', JObj [(''c'', JNum 9)])])
   = Inr [(''a'', JNum 1), (''b'', JObj [(''c'', JNum 9), (''d'', JNum 3)])]"
  by code_simp

text \<open>
  C8. The claim: \<open>mergeThemes\<close> never throws, and a subtree of the new tree under a key
  the old tree lacks is merged with an empty tree. The recursive call receives
  \<open>oldThemeObject[key]\<close>, which is \<open>undefined\<close> there (the guard \<open>|| {}\<close> is on the new
  value, which is an object already); reading a property of it throws as soon as the new
  subtree has a subtree of its own or a falsy leaf. Only a new subtree of truthy leaves
  goes through.
\<close>

theorem C8_mergeThemes_throws:
  "mergeThemes (JObj []) (JObj [(''b'', JObj [(''c'', JObj [(''d'', JStr ''var(--b-c-d)'')])])])
     = Inl TypeError
   \<and> mergeThemes (JObj []) (JObj [(''b'', JObj [(''c'', JNum 0)])]) = Inl TypeError
   \<and> mergeThemes (JObj []) (JObj [(''b'', JObj [(''c'', JNum 9)])])
       = Inr [(''b'', JObj [(''c'', JNum 9)])]"
  by code_simp

end
